theory Spec2Isabelle
  imports Complex_Main "HOL-Library.Multiset" "HOL-Library.List_Lexorder" "HOL-Library.Char_ord"
begin

section \<open>The mentions table\<close>

text \<open>
  The schema of the \<^verbatim>\<open>mentions\<close> table (database schema, \<^verbatim>\<open>CREATE TABLE mentions\<close>).
  A column that may be NULL is an \<open>option\<close>; a \<^verbatim>\<open>NOT NULL\<close> column is not.
  Timestamps are milliseconds since the epoch (what JavaScript's \<^verbatim>\<open>getTime()\<close>
  returns); \<^verbatim>\<open>sentiment_score DECIMAL(3,2)\<close> is a rational number.
\<close>

record mention =
  row_id :: nat
  ticker :: string
  subreddit :: string
  post_id :: string
  comment_id :: "string option"
  source :: string
  created_at :: int
  author :: "string option"
  context_text :: "string option"
  sentiment_score :: "rat option"
  reddit_created_utc :: "int option"
  post_title :: "string option"

text \<open>\<^verbatim>\<open>CHECK (source IN ('post', 'comment'))\<close>\<close>

definition source_check :: "mention \<Rightarrow> bool" where
  "source_check r = (source r = ''post'' \<or> source r = ''comment'')"

section \<open>SQL aggregates\<close>

text \<open>
  \<^verbatim>\<open>CASE WHEN c THEN v END\<close> is NULL when \<open>c\<close> does not hold; \<^verbatim>\<open>COUNT(e)\<close> counts
  the rows where \<open>e\<close> is not NULL; \<^verbatim>\<open>COUNT(*)\<close> counts all rows of the group.
\<close>

definition case_when :: "bool \<Rightarrow> 'a \<Rightarrow> 'a option" where
  "case_when c v = (if c then Some v else None)"

definition sql_count :: "'a option list \<Rightarrow> nat" where
  "sql_count vs = length (filter (\<lambda>v. v \<noteq> None) vs)"

definition count_star :: "'a list \<Rightarrow> nat" where
  "count_star rows = length rows"

section \<open>The subreddit ranking endpoint\<close>

text \<open>
  \<^verbatim>\<open>GET /api/subreddits\<close>. The \<^verbatim>\<open>switch (timeRange)\<close> chooses the length of the
  window in milliseconds; every unknown value falls to the \<^verbatim>\<open>default\<close> branch.
\<close>

definition time_window :: "string \<Rightarrow> int" where
  "time_window timeRange =
     (if timeRange = ''daily'' then 24 * 60 * 60 * 1000
      else if timeRange = ''weekly'' then 7 * 24 * 60 * 60 * 1000
      else if timeRange = ''monthly'' then 30 * 24 * 60 * 60 * 1000
      else 24 * 60 * 60 * 1000)"

definition timeCondition :: "string \<Rightarrow> int \<Rightarrow> mention \<Rightarrow> bool" where
  "timeCondition timeRange now r = (created_at r \<ge> now - time_window timeRange)"

definition subreddits :: "string list" where
  "subreddits = [''pennystocks'', ''TheRaceTo10Million'', ''SecurityAnalysis'',
                 ''investing'', ''stocks'']"

text \<open>The rows of the two common table expressions: \<^verbatim>\<open>ticker_stats\<close>, and
  \<^verbatim>\<open>ranked_tickers\<close>, which adds the \<^verbatim>\<open>rank\<close> column.\<close>

record ticker_stat =
  stat_ticker :: string
  posts :: nat
  comments :: nat
  total_mentions :: nat

record ranked_ticker = ticker_stat +
  rank :: nat

text \<open>
  \<^verbatim>\<open>ticker_stats\<close>: the rows of the window and the subreddit, grouped by ticker.
  \<^verbatim>\<open>GROUP BY\<close> delivers the groups in no particular order: the list below stands for
  the bag of groups, and the order in which it holds them means nothing (the executor
  below decides in which order the groups are numbered).
\<close>

definition scope_rows :: "string \<Rightarrow> int \<Rightarrow> string \<Rightarrow> mention list \<Rightarrow> mention list" where
  "scope_rows timeRange now sub tbl =
     filter (\<lambda>r. timeCondition timeRange now r \<and> subreddit r = sub) tbl"

definition stat_of_group :: "string \<Rightarrow> mention list \<Rightarrow> ticker_stat" where
  "stat_of_group t g =
     \<lparr> stat_ticker = t,
       posts = sql_count (map (\<lambda>r. case_when (source r = ''post'') (1::nat)) g),
       comments = sql_count (map (\<lambda>r. case_when (source r = ''comment'') (1::nat)) g),
       total_mentions = count_star g \<rparr>"

definition ticker_stats :: "string \<Rightarrow> int \<Rightarrow> string \<Rightarrow> mention list \<Rightarrow> ticker_stat list" where
  "ticker_stats timeRange now sub tbl =
     (let rows = scope_rows timeRange now sub tbl
      in map (\<lambda>t. stat_of_group t (filter (\<lambda>r. ticker r = t) rows))
             (remdups (map ticker rows)))"

text \<open>
  \<^verbatim>\<open>ROW_NUMBER() OVER (ORDER BY total_mentions DESC)\<close>: the groups are numbered along
  an order in which the totals descend. The total is the only sort key, so the query does
  not say in which order groups of equal total are numbered: that is the choice of the
  database (it depends on the plan it runs), and it may differ from one run to the next.
  An executor stands for that choice: it returns the groups in the order along which they
  are numbered. It obeys the query when that order is a rearrangement of the groups in
  which the totals descend.
\<close>

type_synonym executor = "ticker_stat list \<Rightarrow> ticker_stat list"

definition ordered_by_total_desc :: "ticker_stat list \<Rightarrow> ticker_stat list \<Rightarrow> bool" where
  "ordered_by_total_desc stats ordered =
     (mset ordered = mset stats \<and>
      sorted_wrt (\<lambda>a b. total_mentions a \<ge> total_mentions b) ordered)"

definition number_rows :: "ticker_stat list \<Rightarrow> ranked_ticker list" where
  "number_rows ss =
     map (\<lambda>(i, s). ticker_stat.extend s \<lparr> rank = Suc i \<rparr>) (enumerate 0 ss)"

definition ranked_tickers ::
  "executor \<Rightarrow> string \<Rightarrow> int \<Rightarrow> string \<Rightarrow> mention list \<Rightarrow> ranked_ticker list" where
  "ranked_tickers exec timeRange now sub tbl =
     number_rows (exec (ticker_stats timeRange now sub tbl))"

definition obeys_query :: "executor \<Rightarrow> string \<Rightarrow> int \<Rightarrow> string \<Rightarrow> mention list \<Rightarrow> bool" where
  "obeys_query exec timeRange now sub tbl =
     ordered_by_total_desc (ticker_stats timeRange now sub tbl)
       (exec (ticker_stats timeRange now sub tbl))"

text \<open>The list of \<^verbatim>\<open>WHERE ticker NOT IN (...)\<close>.\<close>

definition excluded_tickers :: "string list" where
  "excluded_tickers =
     [''T'', ''RE'', ''HAS'', ''TECH'', ''LOW'', ''KEY'', ''PEAK'', ''FAST'', ''GS'',
      ''O'', ''C'', ''F'', ''K'', ''A'', ''B'', ''D'', ''E'', ''G'', ''H'', ''I'', ''J'',
      ''L'', ''M'', ''N'', ''P'', ''Q'', ''R'', ''S'', ''U'', ''V'', ''W'', ''X'', ''Y'',
      ''Z'']"

text \<open>
  The final \<^verbatim>\<open>SELECT\<close>: the filter on the ticker, \<^verbatim>\<open>ORDER BY rank\<close>,
  \<^verbatim>\<open>LIMIT 10\<close>.
\<close>

definition subreddit_query ::
  "executor \<Rightarrow> string \<Rightarrow> int \<Rightarrow> string \<Rightarrow> mention list \<Rightarrow> ranked_ticker list" where
  "subreddit_query exec timeRange now sub tbl =
     take 10 (sort_key rank
       (filter (\<lambda>r. stat_ticker r \<notin> set excluded_tickers \<and> length (stat_ticker r) > 1)
          (ranked_tickers exec timeRange now sub tbl)))"

text \<open>
  JavaScript numbers are IEEE 754 doubles: a multiplication or a subtraction returns the
  exact result rounded to the nearest double, ties to even. A double is modelled by the
  rational number it stands for. \<open>normalise\<close> brings a positive fraction \<open>p / d\<close> to
  the form \<open>(p' / d') * 2 ^ e\<close> with \<open>2 ^ 52 \<le> p' / d' < 2 ^ 53\<close> (the fuel covers every
  exponent of a double); \<open>round_double\<close> then rounds \<open>p' / d'\<close> to an integer. It is
  written for the normal range of doubles, in which every value computed from a draw of
  \<^verbatim>\<open>Math.random()\<close> (a double in [0, 1)) lies.
\<close>

definition round_half_even :: "int \<Rightarrow> int \<Rightarrow> int" where
  "round_half_even p d =
     (let f = p div d; r = p mod d
      in if 2 * r < d then f else if d < 2 * r then f + 1 else if even f then f else f + 1)"

fun normalise :: "nat \<Rightarrow> int \<Rightarrow> int \<Rightarrow> int \<Rightarrow> int \<times> int \<times> int" where
  "normalise 0 p d e = (p, d, e)"
| "normalise (Suc fuel) p d e =
     (if 9007199254740992 * d \<le> p then normalise fuel p (d * 2) (e + 1)
      else if p < 4503599627370496 * d then normalise fuel (p * 2) d (e - 1)
      else (p, d, e))"

definition pow2 :: "int \<Rightarrow> rat" where
  "pow2 e = (if 0 \<le> e then 2 ^ nat e else 1 / 2 ^ nat (- e))"

definition round_double :: "rat \<Rightarrow> rat" where
  "round_double q =
     (if q = 0 then 0
      else let (p, d) = quotient_of \<bar>q\<bar>;
               (p', d', e) = normalise 2100 p d 0
           in sgn q * of_int (round_half_even p' d') * pow2 e)"

text \<open>\<^verbatim>\<open>Math.random() * 40 - 20\<close>, evaluated left to right in doubles.\<close>

definition js_change :: "rat \<Rightarrow> rat" where
  "js_change r = round_double (round_double (r * 40) - 20)"

text \<open>
  The rows of the JSON response. \<^verbatim>\<open>Math.random()\<close> is a source of draws: the
  \<open>k\<close>-th call of a run returns the double \<open>rnd k\<close>.
\<close>

record response_row =
  resp_rank :: nat
  resp_ticker :: string
  resp_posts :: nat
  resp_comments :: nat
  change :: rat

definition map_rows :: "(nat \<Rightarrow> rat) \<Rightarrow> nat \<Rightarrow> ranked_ticker list \<Rightarrow> response_row list" where
  "map_rows rnd k rows =
     map (\<lambda>(index, row).
            \<lparr> resp_rank = index + 1,
              resp_ticker = stat_ticker row,
              resp_posts = posts row,
              resp_comments = comments row,
              change = js_change (rnd (k + index)) \<rparr>)
         (enumerate 0 rows)"

text \<open>The \<^verbatim>\<open>for (const subreddit of subreddits)\<close> loop; \<open>k\<close> counts the draws made.\<close>

fun subreddit_loop ::
  "executor \<Rightarrow> string \<Rightarrow> int \<Rightarrow> mention list \<Rightarrow> (nat \<Rightarrow> rat) \<Rightarrow> nat \<Rightarrow> string list
     \<Rightarrow> (string \<times> response_row list) list" where
  "subreddit_loop exec timeRange now tbl rnd k [] = []"
| "subreddit_loop exec timeRange now tbl rnd k (sub # subs) =
     (let rows = subreddit_query exec timeRange now sub tbl
      in (sub, map_rows rnd k rows)
           # subreddit_loop exec timeRange now tbl rnd (k + length rows) subs)"

record subreddits_response =
  subredditData :: "(string \<times> response_row list) list"
  resp_timeRange :: string

datatype http_error = Error500 string

text \<open>
  The request carries the optional \<^verbatim>\<open>timeRange\<close> parameter
  (\<^verbatim>\<open>searchParams.get('timeRange') || 'daily'\<close>: absent or empty gives daily).
\<close>

definition requested_timeRange :: "string option \<Rightarrow> string" where
  "requested_timeRange param =
     (case param of None \<Rightarrow> ''daily'' | Some s \<Rightarrow> if s = [] then ''daily'' else s)"

text \<open>
  The handler. A query that throws (the table is not reachable: \<open>None\<close>) is caught and
  answered with status 500. The executor is the database's way of ordering the groups in
  this run.
\<close>

definition GET ::
  "string option \<Rightarrow> int \<Rightarrow> mention list option \<Rightarrow> executor \<Rightarrow> (nat \<Rightarrow> rat)
     \<Rightarrow> http_error + subreddits_response" where
  "GET param now db exec rnd =
     (let timeRange = requested_timeRange param
      in case db of
           None \<Rightarrow> Inl (Error500 ''Failed to fetch subreddit data'')
         | Some tbl \<Rightarrow>
             Inr \<lparr> subredditData = subreddit_loop exec timeRange now tbl rnd 0 subreddits,
                   resp_timeRange = timeRange \<rparr>)"


text \<open>
  Ways of ordering that obey every query: by descending total and, among equal totals, by
  ascending ticker; and by descending total and, among equal totals, in the order in which
  a given list names the tickers.
\<close>

definition ties_by_ticker :: executor where
  "ties_by_ticker stats =
     sort_key (\<lambda>s. - int (total_mentions s)) (sort_key stat_ticker stats)"

definition position :: "string \<Rightarrow> string list \<Rightarrow> nat" where
  "position t order = length (takeWhile (\<lambda>x. x \<noteq> t) order)"

definition ties_in_order :: "string list \<Rightarrow> executor" where
  "ties_in_order order stats =
     sort_key (\<lambda>s. - int (total_mentions s))
       (sort_key (\<lambda>s. position (stat_ticker s) order) stats)"





section \<open>The hourly materialized view\<close>

text \<open>
  \<^verbatim>\<open>DATE_TRUNC('hour', created_at)\<close> on millisecond timestamps (hours of UTC), and the
  ninety days of the view's \<^verbatim>\<open>WHERE\<close>.
\<close>

definition date_trunc_hour :: "int \<Rightarrow> int" where
  "date_trunc_hour t = (t div 3600000) * 3600000"

definition ninety_days :: int where
  "ninety_days = 90 * 24 * 60 * 60 * 1000"

text \<open>
  \<^verbatim>\<open>SUM(e)\<close> over the rows of a group (a group is never empty), with
  \<^verbatim>\<open>CASE WHEN c THEN a ELSE b END\<close>; \<^verbatim>\<open>AVG(e)\<close> skips NULL and is NULL when
  nothing is left.
\<close>

definition case_when_else :: "bool \<Rightarrow> 'a \<Rightarrow> 'a \<Rightarrow> 'a" where
  "case_when_else c a b = (if c then a else b)"

definition sql_sum :: "nat list \<Rightarrow> nat" where
  "sql_sum vs = sum_list vs"

definition non_null :: "'a option list \<Rightarrow> 'a list" where
  "non_null vs = concat (map (\<lambda>v. case v of None \<Rightarrow> [] | Some x \<Rightarrow> [x]) vs)"

definition sql_avg :: "rat option list \<Rightarrow> rat option" where
  "sql_avg vs =
     (let xs = non_null vs
      in if xs = [] then None else Some (sum_list xs / of_nat (length xs)))"

record hourly_row =
  mh_ticker :: string
  mh_subreddit :: string
  bucket_hour :: int
  hits :: nat
  mh_posts :: nat
  mh_comments :: nat
  avg_sentiment :: "rat option"

type_synonym hourly_key = "string \<times> string \<times> int"

definition key_of_mention :: "mention \<Rightarrow> hourly_key" where
  "key_of_mention r = (ticker r, subreddit r, date_trunc_hour (created_at r))"

definition key_of_row :: "hourly_row \<Rightarrow> hourly_key" where
  "key_of_row h = (mh_ticker h, mh_subreddit h, bucket_hour h)"

definition hourly_of_group :: "hourly_key \<Rightarrow> mention list \<Rightarrow> hourly_row" where
  "hourly_of_group k g =
     \<lparr> mh_ticker = fst k,
       mh_subreddit = fst (snd k),
       bucket_hour = snd (snd k),
       hits = count_star g,
       mh_posts = sql_sum (map (\<lambda>r. case_when_else (source r = ''post'') 1 0) g),
       mh_comments = sql_sum (map (\<lambda>r. case_when_else (source r = ''comment'') 1 0) g),
       avg_sentiment = sql_avg (map sentiment_score g) \<rparr>"

definition recent_rows :: "int \<Rightarrow> mention list \<Rightarrow> mention list" where
  "recent_rows now tbl = filter (\<lambda>r. created_at r \<ge> now - ninety_days) tbl"

text \<open>The defining query of \<^verbatim>\<open>mentions_hourly\<close>, evaluated at the time \<open>now\<close>.\<close>

definition mentions_hourly_query :: "int \<Rightarrow> mention list \<Rightarrow> hourly_row list" where
  "mentions_hourly_query now tbl =
     (let rows = recent_rows now tbl
      in map (\<lambda>k. hourly_of_group k (filter (\<lambda>r. key_of_mention r = k) rows))
             (remdups (map key_of_mention rows)))"

section \<open>The database and its statements\<close>

text \<open>
  The stored state: the rows of \<^verbatim>\<open>mentions\<close>, the sequence behind its
  \<^verbatim>\<open>BIGSERIAL\<close> id, the stored rows of the materialized view, and the indexes
  declared on the view (each with its columns and whether it is \<^verbatim>\<open>UNIQUE\<close>).
\<close>

record view_index =
  index_columns :: "string list"
  index_unique :: bool

record database =
  mentions :: "mention list"
  mentions_id_seq :: nat
  mentions_hourly :: "hourly_row list"
  mentions_hourly_indexes :: "view_index list"

text \<open>The schema as created: no rows, and the two indexes it declares on the view.\<close>

definition schema_created :: database where
  "schema_created =
     \<lparr> mentions = [], mentions_id_seq = 1, mentions_hourly = [],
       mentions_hourly_indexes =
         [\<lparr> index_columns = [''ticker''], index_unique = False \<rparr>,
          \<lparr> index_columns = [''bucket_hour''], index_unique = False \<rparr>] \<rparr>"

datatype sql_error =
    ValueTooLong
  | CheckViolation
  | CannotRefreshConcurrently

text \<open>
  \<^verbatim>\<open>REFRESH MATERIALIZED VIEW mentions_hourly\<close> (the command of the README) replaces
  the stored rows by the result of the defining query. With \<^verbatim>\<open>CONCURRENTLY\<close> (the
  refresh script) the stored result is the same, and PostgreSQL refuses the statement
  unless the view has a unique index.
\<close>

definition refresh_mentions_hourly :: "int \<Rightarrow> database \<Rightarrow> database" where
  "refresh_mentions_hourly now db =
     db \<lparr> mentions_hourly := mentions_hourly_query now (mentions db) \<rparr>"

definition refresh_concurrently :: "int \<Rightarrow> database \<Rightarrow> sql_error + database" where
  "refresh_concurrently now db =
     (if list_ex index_unique (mentions_hourly_indexes db)
      then Inr (refresh_mentions_hourly now db)
      else Inl CannotRefreshConcurrently)"

text \<open>
  \<^verbatim>\<open>UNIQUE(ticker, post_id, comment_id)\<close>. A unique constraint compares with SQL
  equality, and NULL equals nothing: two rows conflict only when all three columns are
  equal and none of them is NULL. \<open>ticker\<close> and \<open>post_id\<close> are never NULL;
  \<open>comment_id\<close> is NULL for a post.
\<close>

definition unique_conflict :: "mention \<Rightarrow> mention \<Rightarrow> bool" where
  "unique_conflict a b =
     (ticker a = ticker b \<and> post_id a = post_id b \<and>
      (case comment_id a of
         None \<Rightarrow> False
       | Some x \<Rightarrow> (case comment_id b of None \<Rightarrow> False | Some y \<Rightarrow> x = y)))"

text \<open>The \<^verbatim>\<open>VARCHAR(n)\<close> lengths of the columns.\<close>

definition varchar_ok :: "mention \<Rightarrow> bool" where
  "varchar_ok r =
     (length (ticker r) \<le> 10 \<and> length (subreddit r) \<le> 50 \<and> length (post_id r) \<le> 20 \<and>
      (case comment_id r of None \<Rightarrow> True | Some c \<Rightarrow> length c \<le> 20) \<and>
      length (source r) \<le> 10 \<and>
      (case author r of None \<Rightarrow> True | Some a \<Rightarrow> length a \<le> 50))"

text \<open>
  Modelled from the spec: the write path \<open>record(ticker, post_id, comment_id_or_absent,
  community, author, occurred_at, context_snippet, source_kind)\<close> of the Mention Store
  (the worker that writes is not among the sources). The spec has it insert and ignore a
  conflict of the storage-level uniqueness constraint: \<^verbatim>\<open>INSERT INTO mentions ... ON
  CONFLICT DO NOTHING\<close> against the table above. A conflict is a silent no-op; the
  sequence advances all the same.
\<close>

definition record_mention ::
  "string \<Rightarrow> string \<Rightarrow> string option \<Rightarrow> string \<Rightarrow> string option \<Rightarrow> int \<Rightarrow> string option
     \<Rightarrow> string \<Rightarrow> database \<Rightarrow> sql_error + database" where
  "record_mention tk pid cid community auth occurred_at snippet source_kind db =
     (let new = \<lparr> row_id = mentions_id_seq db, ticker = tk, subreddit = community,
                  post_id = pid, comment_id = cid, source = source_kind,
                  created_at = occurred_at, author = auth, context_text = snippet,
                  sentiment_score = None, reddit_created_utc = None, post_title = None \<rparr>;
          db' = db \<lparr> mentions_id_seq := Suc (mentions_id_seq db) \<rparr>
      in if \<not> varchar_ok new then Inl ValueTooLong
         else if \<not> source_check new then Inl CheckViolation
         else if list_ex (\<lambda>r. unique_conflict r new) (mentions db) then Inr db'
         else Inr (db' \<lparr> mentions := mentions db @ [new] \<rparr>))"

text \<open>Modelled from the spec: counts partitioned by source kind.\<close>

record kind_counts =
  post_count :: nat
  comment_count :: nat

text \<open>
  Modelled from the spec: \<open>count_since(ticker_or_all, community_or_all,
  since_timestamp)\<close>, the counts partitioned by source kind (\<open>None\<close> stands for "all").
\<close>

definition count_since :: "string option \<Rightarrow> string option \<Rightarrow> int \<Rightarrow> database \<Rightarrow> kind_counts" where
  "count_since ticker_or_all community_or_all since db =
     (let rows = filter (\<lambda>r. (case ticker_or_all of None \<Rightarrow> True | Some t \<Rightarrow> ticker r = t) \<and>
                              (case community_or_all of None \<Rightarrow> True | Some c \<Rightarrow> subreddit r = c) \<and>
                              created_at r \<ge> since) (mentions db)
      in \<lparr> post_count = length (filter (\<lambda>r. source r = ''post'') rows),
           comment_count = length (filter (\<lambda>r. source r = ''comment'') rows) \<rparr>)"

text \<open>The number of stored rows with a given (ticker, post id, comment id) triple.\<close>

definition triple_count :: "string \<Rightarrow> string \<Rightarrow> string option \<Rightarrow> database \<Rightarrow> nat" where
  "triple_count tk pid cid db =
     length (filter (\<lambda>r. ticker r = tk \<and> post_id r = pid \<and> comment_id r = cid) (mentions db))"

text \<open>
  A sequence of \<open>record\<close> calls: each call is made on the state the calls before it
  left; a call that raises leaves the state as it was.
\<close>

record record_call =
  call_ticker :: string
  call_post_id :: string
  call_comment_id :: "string option"
  call_community :: string
  call_author :: "string option"
  call_occurred_at :: int
  call_snippet :: "string option"
  call_source_kind :: string

definition after_call :: "database \<Rightarrow> record_call \<Rightarrow> database" where
  "after_call db c =
     (case record_mention (call_ticker c) (call_post_id c) (call_comment_id c)
             (call_community c) (call_author c) (call_occurred_at c) (call_snippet c)
             (call_source_kind c) db of
        Inl e \<Rightarrow> db
      | Inr db' \<Rightarrow> db')"

definition after_calls :: "database \<Rightarrow> record_call list \<Rightarrow> database" where
  "after_calls db cs = foldl after_call db cs"

text \<open>No comment-level triple is stored twice.\<close>

definition unique_holds :: "database \<Rightarrow> bool" where
  "unique_holds db = (\<forall>tk pid cid. triple_count tk pid (Some cid) db \<le> 1)"

section \<open>Replaying the mention records\<close>

text \<open>
  The spec's words for the aggregate buckets: derived, and reconstructable by replaying
  the mention records. The replay goes through the records one at a time and adds each
  record of the last ninety days to the bucket of its key.
\<close>

record bucket =
  b_hits :: nat
  b_posts :: nat
  b_comments :: nat
  b_sent_sum :: rat
  b_sent_cnt :: nat

definition empty_bucket :: bucket where
  "empty_bucket = \<lparr> b_hits = 0, b_posts = 0, b_comments = 0, b_sent_sum = 0, b_sent_cnt = 0 \<rparr>"

definition add_mention :: "bucket \<Rightarrow> mention \<Rightarrow> bucket" where
  "add_mention b r =
     \<lparr> b_hits = b_hits b + 1,
       b_posts = b_posts b + (if source r = ''post'' then 1 else 0),
       b_comments = b_comments b + (if source r = ''comment'' then 1 else 0),
       b_sent_sum = b_sent_sum b + (case sentiment_score r of None \<Rightarrow> 0 | Some x \<Rightarrow> x),
       b_sent_cnt = b_sent_cnt b + (case sentiment_score r of None \<Rightarrow> 0 | Some x \<Rightarrow> 1) \<rparr>"

definition replay_step :: "int \<Rightarrow> (hourly_key \<rightharpoonup> bucket) \<Rightarrow> mention \<Rightarrow> (hourly_key \<rightharpoonup> bucket)" where
  "replay_step now m r =
     (if created_at r \<ge> now - ninety_days
      then m (key_of_mention r \<mapsto>
                add_mention (case m (key_of_mention r) of None \<Rightarrow> empty_bucket | Some b \<Rightarrow> b) r)
      else m)"

definition replay :: "int \<Rightarrow> mention list \<Rightarrow> (hourly_key \<rightharpoonup> bucket)" where
  "replay now tbl = foldl (replay_step now) Map.empty tbl"

definition row_of_bucket :: "hourly_key \<Rightarrow> bucket \<Rightarrow> hourly_row" where
  "row_of_bucket k b =
     \<lparr> mh_ticker = fst k,
       mh_subreddit = fst (snd k),
       bucket_hour = snd (snd k),
       hits = b_hits b,
       mh_posts = b_posts b,
       mh_comments = b_comments b,
       avg_sentiment = (if b_sent_cnt b = 0 then None
                        else Some (b_sent_sum b / of_nat (b_sent_cnt b))) \<rparr>"

section \<open>The mention extractor\<close>

text \<open>
  Modelled from the spec: the Mention Extractor (the worker's ticker extraction, which is
  not among the sources; only the README of its tests is). The definitions of this section
  follow the detection rules of the spec, in their order of precedence. The spec names no
  length limit for a text, so every text is scanned.
\<close>

text \<open>Modelled from the spec: the uppercase letters of a symbol.\<close>

definition is_upper :: "char \<Rightarrow> bool" where
  "is_upper c = (c \<in> set ''ABCDEFGHIJKLMNOPQRSTUVWXYZ'')"

text \<open>Modelled from the spec: the other letters, the digits, and the alphanumeric
  characters, which bound no token.\<close>

definition is_lower :: "char \<Rightarrow> bool" where
  "is_lower c = (c \<in> set ''abcdefghijklmnopqrstuvwxyz'')"

definition is_digit :: "char \<Rightarrow> bool" where
  "is_digit c = (c \<in> set ''0123456789'')"

definition is_alnum :: "char \<Rightarrow> bool" where
  "is_alnum c = (is_upper c \<or> is_lower c \<or> is_digit c)"

text \<open>
  Modelled from the spec: a word boundary on the right: the end of the string or a
  character that is not alphanumeric.
\<close>

definition bounded_after :: "string \<Rightarrow> bool" where
  "bounded_after rest = (case rest of [] \<Rightarrow> True | c # _ \<Rightarrow> \<not> is_alnum c)"

text \<open>
  Modelled from the spec: a boundary on the left of a bare token: the start of the string
  or a character that is not alphanumeric. A token that follows \<open>$\<close> is a cashtag (rule 1
  wins for that token), not a bare token.
\<close>

definition bounded_before :: "char option \<Rightarrow> bool" where
  "bounded_before prev =
     (case prev of None \<Rightarrow> True | Some p \<Rightarrow> \<not> is_alnum p \<and> p \<noteq> CHR ''$'')"

text \<open>
  Modelled from the spec: the token that starts at the head of \<open>s\<close>: its run of uppercase
  letters, when that run has 1 to 5 letters and ends at a word boundary.
\<close>

definition token_at :: "string \<Rightarrow> string option" where
  "token_at s =
     (let t = takeWhile is_upper s; rest = dropWhile is_upper s
      in if 1 \<le> length t \<and> length t \<le> 5 \<and> bounded_after rest then Some t else None)"

text \<open>
  Modelled from the spec: the contraction guard (rule 3): the token is immediately
  followed by an apostrophe and a letter.
\<close>

definition contraction_after :: "string \<Rightarrow> bool" where
  "contraction_after rest =
     (case rest of
        a # l # _ \<Rightarrow> a = CHR 0x27 \<and> (is_upper l \<or> is_lower l)
      | _ \<Rightarrow> False)"

text \<open>Modelled from the spec: the candidates (RawMention): a symbol and the form it was
  matched in.\<close>

datatype match_form = Cashtag | Bare

text \<open>
  Modelled from the spec: the scan of the text, position by position; \<open>prev\<close> is the
  character before the position. At a \<open>$\<close> the cashtag form (rule 1) is tried; at an
  uppercase letter with a boundary on its left the bare form (rule 2), unless the
  contraction guard (rule 3) rejects it. Rule 1 asks for uppercase letters after the
  \<open>$\<close>, so normalising the case of a cashtag before the lookup changes nothing.
\<close>

fun scan :: "char option \<Rightarrow> string \<Rightarrow> (string \<times> match_form) list" where
  "scan prev [] = []"
| "scan prev (c # cs) =
     (if c = CHR ''$'' then
        (case token_at cs of Some t \<Rightarrow> [(t, Cashtag)] | None \<Rightarrow> [])
      else if is_upper c \<and> bounded_before prev then
        (case token_at (c # cs) of
           Some t \<Rightarrow> if contraction_after (dropWhile is_upper (c # cs)) then [] else [(t, Bare)]
         | None \<Rightarrow> [])
      else [])
     @ scan (Some c) cs"

text \<open>
  Modelled from the spec: a strong ticker signal in the text: a cashtag of a symbol of the
  reference set, anywhere in the text.
\<close>

definition strong_signal :: "string \<Rightarrow> string list \<Rightarrow> bool" where
  "strong_signal text reference =
     list_ex (\<lambda>(t, f). f = Cashtag \<and> t \<in> set reference) (scan None text)"

text \<open>
  Modelled from the spec: which candidates are accepted. A cashtag of a reference symbol
  always is (rule 1); a bare token of a reference symbol is unless it is on the blocklist
  (rule 2); a blocklisted symbol of the override list (the canonical one is AI) is
  promoted when the text holds a strong signal (rule 4).
\<close>

definition accepted ::
  "string list \<Rightarrow> string list \<Rightarrow> string list \<Rightarrow> bool \<Rightarrow> string \<times> match_form \<Rightarrow> bool" where
  "accepted reference blocklist overrides strong cand =
     (fst cand \<in> set reference \<and>
      (snd cand = Cashtag \<or> fst cand \<notin> set blocklist \<or>
       (fst cand \<in> set overrides \<and> strong)))"

text \<open>Modelled from the spec: the error of an extraction whose reference set is
  unavailable.\<close>

datatype extract_error = ReferenceUnavailable

text \<open>
  Modelled from the spec: \<open>extract(text, reference set)\<close>, the \<^verbatim>\<open>extract_tickers()\<close> of
  the worker. The result is a set of symbols, here a list without duplicates. An
  unavailable reference set (\<open>None\<close>) is an error, never an empty result.
\<close>

definition extract_tickers ::
  "string \<Rightarrow> string list option \<Rightarrow> string list \<Rightarrow> string list \<Rightarrow> extract_error + string list" where
  "extract_tickers text reference_set blocklist overrides =
     (case reference_set of
        None \<Rightarrow> Inl ReferenceUnavailable
      | Some reference \<Rightarrow>
          Inr (remdups (map fst
                 (filter (accepted reference blocklist overrides (strong_signal text reference))
                    (scan None text)))))"

text \<open>
  Modelled from the spec: the common-word blocklist of the extractor, with the words the
  spec gives for it (rule 2: A, I, IT, BE, FOR, ARE, ON, AT); the plan of the mention
  processor names A, I, IT, BE, FOR, AT, ON and the product notes A, IT, ARE, BE, FOR.
\<close>

definition common_word_blocklist :: "string list" where
  "common_word_blocklist = [''A'', ''I'', ''IT'', ''BE'', ''FOR'', ''ARE'', ''ON'', ''AT'']"

section \<open>Concrete inputs\<close>

text \<open>A stored row whose optional columns other than \<open>comment_id\<close> are NULL.\<close>

definition mk_mention ::
  "nat \<Rightarrow> string \<Rightarrow> string \<Rightarrow> string \<Rightarrow> string option \<Rightarrow> string \<Rightarrow> int \<Rightarrow> mention" where
  "mk_mention i t s p c src ts =
     \<lparr> row_id = i, ticker = t, subreddit = s, post_id = p, comment_id = c, source = src,
       created_at = ts, author = None, context_text = None, sentiment_score = None,
       reddit_created_utc = None, post_title = None \<rparr>"

definition now0 :: int where
  "now0 = 1700000000000"

definition sample_table :: "mention list" where
  "sample_table =
     [mk_mention 1 ''NVDA'' ''stocks'' ''p1'' None ''post'' 1699999000000,
      mk_mention 2 ''NVDA'' ''stocks'' ''p1'' (Some ''c1'') ''comment'' 1699999100000,
      mk_mention 3 ''T'' ''stocks'' ''p1'' (Some ''c1'') ''comment'' 1699999100000,
      mk_mention 4 ''T'' ''stocks'' ''p1'' (Some ''c2'') ''comment'' 1699999200000,
      mk_mention 5 ''T'' ''stocks'' ''p2'' None ''post'' 1699999300000,
      mk_mention 6 ''TSLA'' ''stocks'' ''p2'' None ''post'' 1699999300000]"


text \<open>
  Nine tickers of the subreddit, TSLA with two mentions and the others with one, and an
  order of descending totals in which the tickers of one mention do not follow the
  alphabet (a quicksort by descending total, which is not stable, can leave groups that
  arrive in ticker order in such an order).
\<close>

definition nine_table :: "mention list" where
  "nine_table =
     [mk_mention 1 ''AAPL'' ''stocks'' ''p1'' None ''post'' 1699999000000,
      mk_mention 2 ''AMD'' ''stocks'' ''p2'' None ''post'' 1699999000000,
      mk_mention 3 ''AMZN'' ''stocks'' ''p3'' None ''post'' 1699999000000,
      mk_mention 4 ''GOOG'' ''stocks'' ''p4'' None ''post'' 1699999000000,
      mk_mention 5 ''META'' ''stocks'' ''p5'' None ''post'' 1699999000000,
      mk_mention 6 ''MSFT'' ''stocks'' ''p6'' None ''post'' 1699999000000,
      mk_mention 7 ''NVDA'' ''stocks'' ''p7'' None ''post'' 1699999000000,
      mk_mention 8 ''TSLA'' ''stocks'' ''p8'' None ''post'' 1699999000000,
      mk_mention 9 ''TSLA'' ''stocks'' ''p8'' (Some ''c1'') ''comment'' 1699999100000,
      mk_mention 10 ''UBER'' ''stocks'' ''p9'' None ''post'' 1699999000000]"

definition unstable_sort_order :: "string list" where
  "unstable_sort_order =
     [''TSLA'', ''AMD'', ''AMZN'', ''GOOG'', ''META'', ''MSFT'', ''NVDA'', ''AAPL'', ''UBER'']"

definition anomaly_table :: "mention list" where
  "anomaly_table =
     [mk_mention 1 ''IT'' ''stocks'' ''p1'' (Some ''c1'') ''comment'' 1699999000000]"

definition zero_draws :: "nat \<Rightarrow> rat" where
  "zero_draws k = 0"


definition empty_stocks :: "(string \<times> response_row list) list" where
  "empty_stocks = [(''pennystocks'', []), (''TheRaceTo10Million'', []),
                   (''SecurityAnalysis'', []), (''investing'', [])]"

definition sample_rows :: "rat \<Rightarrow> response_row list" where
  "sample_rows c =
     [\<lparr> resp_rank = 1, resp_ticker = ''NVDA'', resp_posts = 1, resp_comments = 1, change = c \<rparr>,
      \<lparr> resp_rank = 2, resp_ticker = ''TSLA'', resp_posts = 1, resp_comments = 0, change = c \<rparr>]"

definition sample_response :: "rat \<Rightarrow> subreddits_response" where
  "sample_response c =
     \<lparr> subredditData = empty_stocks @ [(''stocks'', sample_rows c)],
       resp_timeRange = ''daily'' \<rparr>"



definition it_row :: response_row where
  "it_row = \<lparr> resp_rank = 1, resp_ticker = ''IT'', resp_posts = 0, resp_comments = 1,
              change = - 20 \<rparr>"

definition anomaly_response :: subreddits_response where
  "anomaly_response =
     \<lparr> subredditData = empty_stocks @ [(''stocks'', [it_row])], resp_timeRange = ''daily'' \<rparr>"

definition nvda_ranked :: ranked_ticker where
  "nvda_ranked = \<lparr> stat_ticker = ''NVDA'', posts = 1, comments = 1, total_mentions = 2,
                   rank = 2 \<rparr>"

definition nvda_hour :: hourly_row where
  "nvda_hour = \<lparr> mh_ticker = ''NVDA'', mh_subreddit = ''stocks'', bucket_hour = 1699995600000,
                 hits = 2, mh_posts = 1, mh_comments = 1, avg_sentiment = None \<rparr>"

definition aapl_post_call :: record_call where
  "aapl_post_call =
     \<lparr> call_ticker = ''AAPL'', call_post_id = ''p1'', call_comment_id = None,
       call_community = ''stocks'', call_author = None, call_occurred_at = 1699999000000,
       call_snippet = None, call_source_kind = ''post'' \<rparr>"

definition sample_db :: database where
  "sample_db = schema_created \<lparr> mentions := sample_table, mentions_id_seq := 7 \<rparr>"

definition indexed_db :: database where
  "indexed_db =
     sample_db \<lparr> mentions_hourly_indexes :=
       [\<lparr> index_columns = [''ticker'', ''subreddit'', ''bucket_hour''],
          index_unique = True \<rparr>] \<rparr>"

section \<open>Properties\<close>

lemma length_subreddit_query: "length (subreddit_query exec timeRange now sub tbl) \<le> 10"
  by (simp add: subreddit_query_def)

lemma fst_enumerate: "map fst (enumerate n xs) = [n..<n + length xs]"
  by (simp add: enumerate_eq_zip)

lemma snd_enumerate: "map snd (enumerate n xs) = xs"
  by (simp add: enumerate_eq_zip)

lemma rank_map_rows: "map resp_rank (map_rows rnd k rows) = [1..<Suc (length rows)]"
proof -
  have "map resp_rank (map_rows rnd k rows) = map (\<lambda>p. Suc (fst p)) (enumerate 0 rows)"
    by (simp add: map_rows_def case_prod_beta)
  also have "\<dots> = map Suc (map fst (enumerate 0 rows))"
    by (simp only: map_map o_def)
  also have "\<dots> = map Suc [0..<length rows]"
    unfolding fst_enumerate by simp
  also have "\<dots> = [1..<Suc (length rows)]"
    by (simp add: map_Suc_upt)
  finally show ?thesis .
qed

lemma length_map_rows: "length (map_rows rnd k rows) = length rows"
  by (simp add: map_rows_def)

lemma ticker_map_rows: "map resp_ticker (map_rows rnd k rows) = map stat_ticker rows"
proof -
  have "map resp_ticker (map_rows rnd k rows) = map (\<lambda>p. stat_ticker (snd p)) (enumerate 0 rows)"
    by (simp add: map_rows_def case_prod_beta)
  also have "\<dots> = map stat_ticker (map snd (enumerate 0 rows))"
    by (simp only: map_map o_def)
  finally show ?thesis unfolding snd_enumerate .
qed

lemma subreddit_loop_rows:
  "(sub, rows) \<in> set (subreddit_loop exec timeRange now tbl rnd k subs) \<Longrightarrow>
   \<exists>k'. rows = map_rows rnd k' (subreddit_query exec timeRange now sub tbl)"
  by (induction subs arbitrary: k) (auto simp: Let_def)

lemma GET_Inr:
  "GET param now db exec rnd = Inr resp \<Longrightarrow>
   \<exists>tbl timeRange. db = Some tbl \<and>
     subredditData resp = subreddit_loop exec timeRange now tbl rnd 0 subreddits"
  by (auto simp: GET_def Let_def split: option.splits)

lemma GET_rows:
  assumes "GET param now db exec rnd = Inr resp" and "(sub, rows) \<in> set (subredditData resp)"
  shows "\<exists>tbl timeRange k. db = Some tbl \<and> rows = map_rows rnd k (subreddit_query exec timeRange now sub tbl)"
  using GET_Inr[OF assms(1)] assms(2) subreddit_loop_rows by metis

text \<open>
  C9. In every answer of the endpoint, for every time-range parameter and every stored
  state, the list of each subreddit has at most 10 rows, and their rank fields are
  1, 2, ..., n in list order: the handler numbers the rows by their index after the
  filter of the query, so a filtered ticker leaves no gap.
\<close>

theorem ranks_consecutive:
  assumes "GET param now db exec rnd = Inr resp" and "(sub, rows) \<in> set (subredditData resp)"
  shows "length rows \<le> 10 \<and> map resp_rank rows = [1..<Suc (length rows)]"
proof -
  obtain tbl timeRange k where r: "rows = map_rows rnd k (subreddit_query exec timeRange now sub tbl)"
    using GET_rows[OF assms] by blast
  show ?thesis
    unfolding r by (simp add: length_map_rows rank_map_rows length_subreddit_query)
qed

lemma query_filtered:
  "r \<in> set (subreddit_query exec timeRange now sub tbl) \<Longrightarrow>
   stat_ticker r \<notin> set excluded_tickers \<and> 1 < length (stat_ticker r)"
  unfolding subreddit_query_def by (auto dest!: in_set_takeD)

text \<open>
  C5 (amended). No row of an answer of the endpoint carries a ticker of the query's own
  exclusion list (T, RE, HAS, TECH, LOW, KEY, PEAK, FAST, GS and the single letters the
  list names), nor a ticker of fewer than two characters, whatever rows are stored.
\<close>

theorem excluded_never_listed:
  assumes "GET param now db exec rnd = Inr resp" and "(sub, rows) \<in> set (subredditData resp)"
    and "row \<in> set rows"
  shows "resp_ticker row \<notin> set excluded_tickers \<and> 1 < length (resp_ticker row)"
proof -
  obtain tbl timeRange k where r: "rows = map_rows rnd k (subreddit_query exec timeRange now sub tbl)"
    using GET_rows[OF assms(1,2)] by blast
  have "resp_ticker row \<in> set (map resp_ticker rows)"
    using assms(3) by simp
  then have "resp_ticker row \<in> set (map stat_ticker (subreddit_query exec timeRange now sub tbl))"
    by (simp only: r ticker_map_rows)
  then obtain q where "q \<in> set (subreddit_query exec timeRange now sub tbl)" "stat_ticker q = resp_ticker row"
    by auto
  then show ?thesis using query_filtered by metis
qed

lemma sort_key_total_desc:
  "sorted_wrt (\<lambda>a b. total_mentions a \<ge> total_mentions b)
     (sort_key (\<lambda>s. - int (total_mentions s)) ss)"
proof -
  have "sorted (map (\<lambda>s. - int (total_mentions s)) (sort_key (\<lambda>s. - int (total_mentions s)) ss))"
    by (rule sorted_sort_key)
  then have "sorted_wrt (\<lambda>a b. - int (total_mentions a) \<le> - int (total_mentions b))
               (sort_key (\<lambda>s. - int (total_mentions s)) ss)"
    by (simp add: sorted_wrt_map)
  then show ?thesis
    by (rule sorted_wrt_mono_rel[rotated]) simp
qed

text \<open>
  The two ways of ordering obey every query, and so does a stable sort by descending total
  of the groups in whatever order they come.
\<close>

lemma ties_by_ticker_ordered: "ordered_by_total_desc stats (ties_by_ticker stats)"
  by (simp add: ordered_by_total_desc_def ties_by_ticker_def sort_key_total_desc)

lemma ties_in_order_ordered: "ordered_by_total_desc stats (ties_in_order order stats)"
  by (simp add: ordered_by_total_desc_def ties_in_order_def sort_key_total_desc)

lemma sort_by_total_ordered:
  "ordered_by_total_desc stats (sort_key (\<lambda>s. - int (total_mentions s)) stats)"
  by (simp add: ordered_by_total_desc_def sort_key_total_desc)

lemma ties_by_ticker_obeys: "obeys_query ties_by_ticker timeRange now sub tbl"
  by (simp add: obeys_query_def ties_by_ticker_ordered)

lemma ties_in_order_obeys: "obeys_query (ties_in_order order) timeRange now sub tbl"
  by (simp add: obeys_query_def ties_in_order_ordered)



lemma obeys_sorted:
  "obeys_query exec timeRange now sub tbl \<Longrightarrow>
   sorted_wrt (\<lambda>a b. total_mentions a \<ge> total_mentions b) (exec (ticker_stats timeRange now sub tbl))"
  by (simp add: obeys_query_def ordered_by_total_desc_def)

lemma obeys_set:
  "obeys_query exec timeRange now sub tbl \<Longrightarrow>
   set (exec (ticker_stats timeRange now sub tbl)) = set (ticker_stats timeRange now sub tbl)"
  unfolding obeys_query_def ordered_by_total_desc_def by (metis mset_eq_setD)

lemma total_number_rows: "map total_mentions (number_rows ss) = map total_mentions ss"
proof -
  have "map total_mentions (number_rows ss) = map (\<lambda>p. total_mentions (snd p)) (enumerate 0 ss)"
    by (simp add: number_rows_def case_prod_beta ticker_stat.extend_def)
  also have "\<dots> = map total_mentions (map snd (enumerate 0 ss))"
    by (simp only: map_map o_def)
  finally show ?thesis unfolding snd_enumerate .
qed

lemma rank_number_rows: "map rank (number_rows ss) = [1..<Suc (length ss)]"
proof -
  have "map rank (number_rows ss) = map (\<lambda>p. Suc (fst p)) (enumerate 0 ss)"
    by (simp add: number_rows_def case_prod_beta ticker_stat.extend_def)
  also have "\<dots> = map Suc (map fst (enumerate 0 ss))"
    by (simp only: map_map o_def)
  also have "\<dots> = map Suc [0..<length ss]"
    unfolding fst_enumerate by simp
  finally show ?thesis by (simp add: map_Suc_upt)
qed

lemma ranked_tickers_desc:
  assumes "obeys_query exec timeRange now sub tbl"
  shows "sorted_wrt (\<lambda>a b. total_mentions a \<ge> total_mentions b)
           (ranked_tickers exec timeRange now sub tbl)"
proof -
  let ?ss = "exec (ticker_stats timeRange now sub tbl)"
  have "sorted_wrt (\<ge>) (map total_mentions ?ss)"
    using obeys_sorted[OF assms] by (simp add: sorted_wrt_map)
  then have "sorted_wrt (\<ge>) (map total_mentions (number_rows ?ss))"
    by (simp only: total_number_rows)
  then show ?thesis
    by (simp add: sorted_wrt_map ranked_tickers_def)
qed

lemma ranked_tickers_rank_sorted:
  "sorted (map rank (ranked_tickers exec timeRange now sub tbl))"
  unfolding ranked_tickers_def rank_number_rows by (rule sorted_upt)

lemma sorted_map_filter: "sorted (map f xs) \<Longrightarrow> sorted (map f (filter P xs))"
  by (induction xs) auto

lemma subreddit_query_alt:
  "subreddit_query exec timeRange now sub tbl =
   take 10 (filter (\<lambda>r. stat_ticker r \<notin> set excluded_tickers \<and> length (stat_ticker r) > 1)
          (ranked_tickers exec timeRange now sub tbl))"
  unfolding subreddit_query_def
  by (simp only: sort_key_id_if_sorted[OF sorted_map_filter[OF ranked_tickers_rank_sorted]])

lemma query_desc:
  assumes "obeys_query exec timeRange now sub tbl"
  shows "sorted_wrt (\<lambda>a b. total_mentions a \<ge> total_mentions b)
           (subreddit_query exec timeRange now sub tbl)"
  unfolding subreddit_query_alt
  by (intro sorted_wrt_take sorted_wrt_filter ranked_tickers_desc[OF assms])

lemma sql_count_case_when:
  "sql_count (map (\<lambda>r. case_when (P r) v) g) = length (filter P g)"
  by (induction g) (simp_all add: sql_count_def case_when_def)

lemma sql_sum_case_when_else:
  "sql_sum (map (\<lambda>r. case_when_else (P r) (Suc 0) 0) g) = length (filter P g)"
  by (induction g) (simp_all add: sql_sum_def case_when_else_def)

lemma check_partition:
  "\<forall>r\<in>set g. source_check r \<Longrightarrow>
   length (filter (\<lambda>r. source r = ''post'') g) + length (filter (\<lambda>r. source r = ''comment'') g)
     = length g"
  by (induction g) (auto simp: source_check_def)

lemma number_rows_set:
  assumes "r \<in> set (number_rows ss)"
  shows "\<exists>s\<in>set ss. stat_ticker r = stat_ticker s \<and> posts r = posts s \<and>
           comments r = comments s \<and> total_mentions r = total_mentions s"
proof -
  from assms obtain i s where "(i, s) \<in> set (enumerate 0 ss)"
    and r: "r = ticker_stat.extend s \<lparr> rank = Suc i \<rparr>"
    by (auto simp: number_rows_def)
  then have "s \<in> set ss"
    by (auto simp: in_set_enumerate_eq)
  moreover have "stat_ticker r = stat_ticker s \<and> posts r = posts s \<and>
           comments r = comments s \<and> total_mentions r = total_mentions s"
    by (simp add: r ticker_stat.extend_def)
  ultimately show ?thesis by blast
qed

lemma ticker_stats_set:
  assumes "s \<in> set (ticker_stats timeRange now sub tbl)"
  shows "s = stat_of_group (stat_ticker s)
               (filter (\<lambda>r. ticker r = stat_ticker s) (scope_rows timeRange now sub tbl))"
  using assms by (auto simp: ticker_stats_def Let_def stat_of_group_def)

lemma query_row_origin:
  assumes "obeys_query exec timeRange now sub tbl"
    and "r \<in> set (subreddit_query exec timeRange now sub tbl)"
  shows "\<exists>s. s = stat_of_group (stat_ticker r)
               (filter (\<lambda>m. ticker m = stat_ticker r) (scope_rows timeRange now sub tbl)) \<and>
             posts r = posts s \<and> comments r = comments s \<and> total_mentions r = total_mentions s"
proof -
  from assms(2) have "r \<in> set (ranked_tickers exec timeRange now sub tbl)"
    unfolding subreddit_query_def by (auto dest!: in_set_takeD)
  then obtain s where "s \<in> set (exec (ticker_stats timeRange now sub tbl))"
    and f: "stat_ticker r = stat_ticker s" "posts r = posts s"
           "comments r = comments s" "total_mentions r = total_mentions s"
    unfolding ranked_tickers_def using number_rows_set by blast
  then have "s \<in> set (ticker_stats timeRange now sub tbl)"
    by (simp add: obeys_set[OF assms(1)])
  from ticker_stats_set[OF this] f show ?thesis by simp
qed

lemma query_row_counts:
  assumes "obeys_query exec timeRange now sub tbl"
    and "r \<in> set (subreddit_query exec timeRange now sub tbl)"
  shows "posts r = length (filter (\<lambda>m. ticker m = stat_ticker r \<and> source m = ''post'')
                     (scope_rows timeRange now sub tbl))"
    and "comments r = length (filter (\<lambda>m. ticker m = stat_ticker r \<and> source m = ''comment'')
                     (scope_rows timeRange now sub tbl))"
    and "total_mentions r = length (filter (\<lambda>m. ticker m = stat_ticker r)
                     (scope_rows timeRange now sub tbl))"
  using query_row_origin[OF assms]
  by (auto simp: stat_of_group_def sql_count_case_when count_star_def)

text \<open>
  C4 (amended). For every stored state, window and subreddit, and every way in which the
  database may order the groups under the query, the ranked query lists the tickers in
  descending order of their total mention count, and the total of a row is the number of
  mentions of its ticker in the window and subreddit. The total is the only sort key: the
  order of two tickers of equal total is the database's choice and is not fixed by their
  symbols.
\<close>

theorem ranking_descending:
  assumes "obeys_query exec timeRange now sub tbl"
  shows "sorted_wrt (\<lambda>a b. total_mentions a \<ge> total_mentions b)
           (subreddit_query exec timeRange now sub tbl) \<and>
         list_all (\<lambda>r. total_mentions r =
                       length (filter (\<lambda>m. ticker m = stat_ticker r)
                                 (scope_rows timeRange now sub tbl)))
           (subreddit_query exec timeRange now sub tbl)"
  using query_desc[OF assms] query_row_counts(3)[OF assms]
  by (simp add: list_all_iff)

lemma hourly_row_origin:
  assumes "h \<in> set (mentions_hourly_query now tbl)"
  shows "h = hourly_of_group (key_of_row h)
               (filter (\<lambda>r. key_of_mention r = key_of_row h) (recent_rows now tbl))"
  using assms by (auto simp: mentions_hourly_query_def Let_def hourly_of_group_def key_of_row_def)

lemma hourly_row_counts:
  assumes "h \<in> set (mentions_hourly_query now tbl)"
  shows "mh_posts h = length (filter (\<lambda>m. key_of_mention m = key_of_row h \<and> source m = ''post'')
                     (recent_rows now tbl))"
    and "mh_comments h = length (filter (\<lambda>m. key_of_mention m = key_of_row h \<and> source m = ''comment'')
                     (recent_rows now tbl))"
    and "hits h = length (filter (\<lambda>m. key_of_mention m = key_of_row h) (recent_rows now tbl))"
proof -
  let ?g = "filter (\<lambda>r. key_of_mention r = key_of_row h) (recent_rows now tbl)"
  have h: "h = hourly_of_group (key_of_row h) ?g"
    by (rule hourly_row_origin[OF assms])
  have "mh_posts h = mh_posts (hourly_of_group (key_of_row h) ?g)"
    using h by simp
  then show "mh_posts h = length (filter (\<lambda>m. key_of_mention m = key_of_row h \<and> source m = ''post'')
                     (recent_rows now tbl))"
    by (simp add: hourly_of_group_def sql_sum_case_when_else)
  have "mh_comments h = mh_comments (hourly_of_group (key_of_row h) ?g)"
    using h by simp
  then show "mh_comments h = length (filter (\<lambda>m. key_of_mention m = key_of_row h \<and> source m = ''comment'')
                     (recent_rows now tbl))"
    by (simp add: hourly_of_group_def sql_sum_case_when_else)
  have "hits h = hits (hourly_of_group (key_of_row h) ?g)"
    using h by simp
  then show "hits h = length (filter (\<lambda>m. key_of_mention m = key_of_row h) (recent_rows now tbl))"
    by (simp add: hourly_of_group_def count_star_def)
qed

lemma filter_partition:
  assumes "\<forall>r\<in>set g. source_check r"
  shows "length (filter (\<lambda>m. Q m \<and> source m = ''post'') g) +
         length (filter (\<lambda>m. Q m \<and> source m = ''comment'') g) = length (filter Q g)"
proof -
  have "\<forall>r\<in>set (filter Q g). source_check r" using assms by simp
  from check_partition[OF this] show ?thesis by simp
qed

text \<open>
  C7. When every stored row satisfies the check on \<open>source\<close>, then in every row of the
  ranked query (however the database orders the groups under it) the post sub-count is the number of in-scope records of the ticker with
  source "post", the comment sub-count the number with source "comment", and the two add
  up to the total; the same holds for \<open>posts\<close>, \<open>comments\<close> and \<open>hits\<close> of every row of
  the hourly view.
\<close>

theorem sub_counts_partition:
  assumes "list_all source_check tbl" and "obeys_query exec timeRange now sub tbl"
  shows "(r \<in> set (subreddit_query exec timeRange now sub tbl) \<longrightarrow>
           posts r = length (filter (\<lambda>m. ticker m = stat_ticker r \<and> source m = ''post'')
                       (scope_rows timeRange now sub tbl)) \<and>
           comments r = length (filter (\<lambda>m. ticker m = stat_ticker r \<and> source m = ''comment'')
                       (scope_rows timeRange now sub tbl)) \<and>
           posts r + comments r = total_mentions r) \<and>
         (h \<in> set (mentions_hourly_query view_now tbl) \<longrightarrow>
           mh_posts h = length (filter (\<lambda>m. key_of_mention m = key_of_row h \<and> source m = ''post'')
                       (recent_rows view_now tbl)) \<and>
           mh_comments h = length (filter (\<lambda>m. key_of_mention m = key_of_row h \<and> source m = ''comment'')
                       (recent_rows view_now tbl)) \<and>
           mh_posts h + mh_comments h = hits h)"
proof -
  have all: "\<forall>m\<in>set tbl. source_check m"
    using assms(1) by (simp add: list_all_iff)
  have s: "\<forall>m\<in>set (scope_rows timeRange now sub tbl). source_check m"
    using all by (simp add: scope_rows_def)
  have v: "\<forall>m\<in>set (recent_rows view_now tbl). source_check m"
    using all by (simp add: recent_rows_def)
  have q: "r \<in> set (subreddit_query exec timeRange now sub tbl) \<longrightarrow>
           posts r = length (filter (\<lambda>m. ticker m = stat_ticker r \<and> source m = ''post'')
                       (scope_rows timeRange now sub tbl)) \<and>
           comments r = length (filter (\<lambda>m. ticker m = stat_ticker r \<and> source m = ''comment'')
                       (scope_rows timeRange now sub tbl)) \<and>
           posts r + comments r = total_mentions r"
    using query_row_counts[OF assms(2), of r] filter_partition[OF s]
    by simp
  have w: "h \<in> set (mentions_hourly_query view_now tbl) \<longrightarrow>
           mh_posts h = length (filter (\<lambda>m. key_of_mention m = key_of_row h \<and> source m = ''post'')
                       (recent_rows view_now tbl)) \<and>
           mh_comments h = length (filter (\<lambda>m. key_of_mention m = key_of_row h \<and> source m = ''comment'')
                       (recent_rows view_now tbl)) \<and>
           mh_posts h + mh_comments h = hits h"
    using hourly_row_counts[of h view_now tbl] filter_partition[OF v]
    by simp
  from q w show ?thesis by (rule conjI)
qed








lemma non_null_simps:
  "non_null [] = []"
  "non_null (None # vs) = non_null vs"
  "non_null (Some x # vs) = x # non_null vs"
  by (simp_all add: non_null_def)

lemma foldl_add_mention:
  "foldl add_mention b g =
     \<lparr> b_hits = b_hits b + length g,
       b_posts = b_posts b + length (filter (\<lambda>r. source r = ''post'') g),
       b_comments = b_comments b + length (filter (\<lambda>r. source r = ''comment'') g),
       b_sent_sum = b_sent_sum b + sum_list (non_null (map sentiment_score g)),
       b_sent_cnt = b_sent_cnt b + length (non_null (map sentiment_score g)) \<rparr>"
proof (induction g arbitrary: b)
  case Nil
  show ?case by (simp add: non_null_simps)
next
  case (Cons r g)
  show ?case
    unfolding foldl_Cons Cons.IH
    by (cases "sentiment_score r") (simp_all add: add_mention_def non_null_simps)
qed

lemma row_of_replayed_group:
  "row_of_bucket k (foldl add_mention empty_bucket g) = hourly_of_group k g"
  by (simp add: foldl_add_mention row_of_bucket_def hourly_of_group_def empty_bucket_def
      count_star_def sql_sum_case_when_else sql_avg_def Let_def)

lemma replay_from:
  "foldl (replay_step now) m tbl k =
     (let g = filter (\<lambda>r. key_of_mention r = k) (recent_rows now tbl)
      in if g = [] then m k
         else Some (foldl add_mention (case m k of None \<Rightarrow> empty_bucket | Some b \<Rightarrow> b) g))"
proof (induction tbl arbitrary: m)
  case Nil
  show ?case by (simp add: recent_rows_def)
next
  case (Cons r tbl)
  show ?case
    unfolding foldl_Cons Cons.IH
    by (simp add: replay_step_def recent_rows_def Let_def)
qed

lemma replay_lookup:
  "replay now tbl k =
     (let g = filter (\<lambda>r. key_of_mention r = k) (recent_rows now tbl)
      in if g = [] then None else Some (foldl add_mention empty_bucket g))"
  unfolding replay_def replay_from by (simp add: Let_def)

lemma group_nonempty:
  "filter (\<lambda>r. key_of_mention r = k) rows \<noteq> [] \<longleftrightarrow> k \<in> set (map key_of_mention rows)"
  by (auto simp: filter_empty_conv)

lemma query_rows_are_replayed:
  "set (mentions_hourly_query now tbl) =
     {row_of_bucket k b | k b. replay now tbl k = Some b}"
proof -
  let ?rows = "recent_rows now tbl"
  let ?g = "\<lambda>k. filter (\<lambda>r. key_of_mention r = k) ?rows"
  have "set (mentions_hourly_query now tbl) =
          {hourly_of_group k (?g k) | k. k \<in> set (map key_of_mention ?rows)}"
    by (auto simp: mentions_hourly_query_def Let_def)
  also have "\<dots> = {row_of_bucket k (foldl add_mention empty_bucket (?g k)) | k. ?g k \<noteq> []}"
    by (simp only: row_of_replayed_group group_nonempty)
  also have "\<dots> = {row_of_bucket k b | k b. replay now tbl k = Some b}"
    by (auto simp: replay_lookup Let_def)
  finally show ?thesis .
qed

lemma key_of_hourly_of_group: "key_of_row (hourly_of_group k g) = k"
  by (simp add: key_of_row_def hourly_of_group_def)

lemma query_keys_distinct: "distinct (map key_of_row (mentions_hourly_query now tbl))"
proof -
  have "map key_of_row (mentions_hourly_query now tbl) = remdups (map key_of_mention (recent_rows now tbl))"
    by (simp add: mentions_hourly_query_def Let_def o_def key_of_hourly_of_group)
  then show ?thesis by simp
qed

text \<open>
  C6. After a refresh of the hourly view (by the plain statement, or by the concurrent one
  when the database accepts it) the \<open>mentions\<close> rows are untouched, the stored snapshot is
  the result of the view's defining query on them at that moment, it has one row per
  key, and its rows are exactly the buckets that replaying the mention records one by one
  builds.
\<close>

theorem snapshot_is_derived:
  assumes "db' = refresh_mentions_hourly now db \<or> refresh_concurrently now db = Inr db'"
  shows "mentions db' = mentions db \<and>
         mentions_hourly db' = mentions_hourly_query now (mentions db) \<and>
         distinct (map key_of_row (mentions_hourly db')) \<and>
         set (mentions_hourly db') = {row_of_bucket k b | k b. replay now (mentions db) k = Some b}"
proof -
  from assms have "db' = refresh_mentions_hourly now db"
    by (auto simp: refresh_concurrently_def split: if_splits)
  then have m: "mentions db' = mentions db"
    and v: "mentions_hourly db' = mentions_hourly_query now (mentions db)"
    by (simp_all add: refresh_mentions_hourly_def)
  show ?thesis
    unfolding v using m query_keys_distinct query_rows_are_replayed by simp
qed

text \<open>
  C1 says that at most one record is stored per (ticker, post id, comment id) triple, also
  when the comment id is absent, so that recording (AAPL, p1, none) twice leaves one
  record and a count of 1. On the schema as created the two calls both insert: the comment
  id of a post-level mention is NULL, the unique constraint never fires for it, two rows
  with the triple are stored and the count is 2.
\<close>

theorem post_level_record_twice:
  "record_mention ''AAPL'' ''p1'' None ''stocks'' None 1699999000000 None ''post'' schema_created
     = Inr (after_calls schema_created [aapl_post_call]) \<and>
   record_mention ''AAPL'' ''p1'' None ''stocks'' None 1699999000000 None ''post''
       (after_calls schema_created [aapl_post_call])
     = Inr (after_calls schema_created [aapl_post_call, aapl_post_call]) \<and>
   map (\<lambda>r. (ticker r, post_id r, comment_id r))
       (mentions (after_calls schema_created [aapl_post_call, aapl_post_call]))
     = [(''AAPL'', ''p1'', None), (''AAPL'', ''p1'', None)] \<and>
   triple_count ''AAPL'' ''p1'' None (after_calls schema_created [aapl_post_call, aapl_post_call]) = 2 \<and>
   count_since (Some ''AAPL'') None 0 (after_calls schema_created [aapl_post_call, aapl_post_call])
     = \<lparr> post_count = 2, comment_count = 0 \<rparr>"
  by (simp add: after_calls_def after_call_def aapl_post_call_def record_mention_def
      schema_created_def varchar_ok_def source_check_def unique_conflict_def Let_def
      triple_count_def count_since_def)

text \<open>
  For comment-level mentions the constraint holds through every sequence of calls.
\<close>

lemma unique_conflict_iff:
  "unique_conflict r new \<longleftrightarrow>
     (\<exists>c. comment_id new = Some c \<and> comment_id r = Some c \<and>
          ticker r = ticker new \<and> post_id r = post_id new)"
  by (cases "comment_id r"; cases "comment_id new") (auto simp: unique_conflict_def)

lemma no_conflict_no_row:
  assumes "\<not> list_ex (\<lambda>r. unique_conflict r new) rows" and "comment_id new = Some c"
  shows "filter (\<lambda>r. ticker r = ticker new \<and> post_id r = post_id new \<and> comment_id r = Some c) rows = []"
  using assms by (auto simp: list_ex_iff unique_conflict_iff filter_empty_conv)

lemma record_mention_keeps_unique:
  assumes "unique_holds db"
    and "record_mention tk pid cid community auth occurred_at snippet source_kind db = Inr db'"
  shows "unique_holds db'"
proof -
  let ?new = "\<lparr> row_id = mentions_id_seq db, ticker = tk, subreddit = community,
                  post_id = pid, comment_id = cid, source = source_kind,
                  created_at = occurred_at, author = auth, context_text = snippet,
                  sentiment_score = None, reddit_created_utc = None, post_title = None \<rparr>"
  consider (same) "mentions db' = mentions db"
    | (added) "mentions db' = mentions db @ [?new]" "\<not> list_ex (\<lambda>r. unique_conflict r ?new) (mentions db)"
    using assms(2) by (auto simp: record_mention_def Let_def split: if_splits)
  then show ?thesis
  proof cases
    case same
    with assms(1) show ?thesis by (simp add: unique_holds_def triple_count_def)
  next
    case added
    show ?thesis
      unfolding unique_holds_def triple_count_def
    proof (intro allI)
      fix t p c
      let ?P = "\<lambda>r. ticker r = t \<and> post_id r = p \<and> comment_id r = Some c"
      have old: "length (filter ?P (mentions db)) \<le> 1"
        using assms(1) by (simp add: unique_holds_def triple_count_def)
      show "length (filter ?P (mentions db')) \<le> 1"
      proof (cases "?P ?new")
        case True
        then have "filter ?P (mentions db) = []"
          using no_conflict_no_row[OF added(2), of c] by simp
        then show ?thesis using True by (simp add: added(1))
      next
        case False
        then have "filter ?P (mentions db') = filter ?P (mentions db)"
          unfolding added(1) by auto
        then show ?thesis using old by simp
      qed
    qed
  qed
qed

lemma after_call_keeps_unique: "unique_holds db \<Longrightarrow> unique_holds (after_call db c)"
  unfolding after_call_def
  by (auto split: sum.splits intro: record_mention_keeps_unique)

lemma comment_level_unique:
  "unique_holds db \<Longrightarrow> unique_holds (after_calls db cs)"
  unfolding after_calls_def
  by (induction cs arbitrary: db) (simp_all add: after_call_keeps_unique)

text \<open>
  The check on \<open>source\<close> holds in every state that \<open>record\<close> calls reach: a call with
  another source kind is refused.
\<close>

lemma record_mention_keeps_check:
  assumes "list_all source_check (mentions db)"
    and "record_mention tk pid cid community auth occurred_at snippet source_kind db = Inr db'"
  shows "list_all source_check (mentions db')"
  using assms by (auto simp: record_mention_def Let_def split: if_splits)

lemma after_calls_checked:
  "list_all source_check (mentions db) \<Longrightarrow> list_all source_check (mentions (after_calls db cs))"
  unfolding after_calls_def
  by (induction cs arbitrary: db)
     (auto simp: after_call_def split: sum.splits intro: record_mention_keeps_check)

lemma bounded_after_not_upper: "bounded_after post \<Longrightarrow> takeWhile is_upper post = []"
  by (cases post) (simp_all add: bounded_after_def is_alnum_def)

lemma upper_run_split:
  assumes "\<forall>c\<in>set tick. is_upper c" and "bounded_after post"
  shows "takeWhile is_upper (tick @ post) = tick" and "dropWhile is_upper (tick @ post) = post"
proof -
  have t: "takeWhile is_upper post = []"
    by (rule bounded_after_not_upper[OF assms(2)])
  show "takeWhile is_upper (tick @ post) = tick"
    using assms(1) t by (simp add: takeWhile_append2)
  have "dropWhile is_upper post = post"
    using t by (metis takeWhile_dropWhile_id append_Nil)
  then show "dropWhile is_upper (tick @ post) = post"
    using assms(1) by (simp add: dropWhile_append2)
qed

lemma token_at_run:
  assumes "tick \<noteq> []" and "length tick \<le> 5" and "\<forall>c\<in>set tick. is_upper c" and "bounded_after post"
  shows "token_at (tick @ post) = Some tick"
proof -
  have "1 \<le> length tick" using assms(1) by (cases tick) simp_all
  then show ?thesis
    unfolding token_at_def upper_run_split[OF assms(3,4)] using assms(2,4) by (simp add: Let_def)
qed

lemma scan_finds_cashtag:
  assumes "token_at rest = Some tick"
  shows "(tick, Cashtag) \<in> set (scan prev (pre @ CHR ''$'' # rest))"
proof (induction pre arbitrary: prev)
  case Nil
  show ?case using assms by simp
next
  case (Cons c pre)
  show ?case using Cons.IH[of "Some c"] by simp
qed

lemma cashtag_is_strong:
  assumes "(t, Cashtag) \<in> set (scan None content)" and "t \<in> set reference"
  shows "strong_signal content reference"
  unfolding strong_signal_def list_ex_iff using assms by force

text \<open>
  C2. A text that contains a cashtag (\<open>$\<close>, then 1 to 5 uppercase letters, then a word
  boundary) of a symbol of the reference set yields that symbol, whatever the blocklist
  and the override list hold.
\<close>

theorem cashtag_always_accepted:
  assumes "tick \<noteq> []" and "length tick \<le> 5" and "\<forall>c\<in>set tick. is_upper c"
    and "bounded_after post" and "tick \<in> set reference"
  shows "\<exists>res. extract_tickers (pre @ ''$'' @ tick @ post) (Some reference) blocklist overrides = Inr res
               \<and> tick \<in> set res"
proof -
  let ?txt = "pre @ ''$'' @ tick @ post"
  have "(tick, Cashtag) \<in> set (scan None ?txt)"
    using scan_finds_cashtag[OF token_at_run[OF assms(1-4)], of None pre] by simp
  moreover have "accepted reference blocklist overrides (strong_signal ?txt reference) (tick, Cashtag)"
    using assms(5) by (simp add: accepted_def)
  ultimately have "tick \<in> fst ` {cand \<in> set (scan None ?txt).
                    accepted reference blocklist overrides (strong_signal ?txt reference) cand}"
    by force
  then show ?thesis
    by (simp add: extract_tickers_def)
qed

text \<open>
  C3. A symbol on the blocklist is not in the result for a text without a strong signal
  (no cashtag of a reference symbol anywhere in it): its bare occurrences are rejected.
\<close>

theorem blocklisted_bare_excluded:
  assumes "tick \<in> set blocklist" and "\<not> strong_signal content reference"
  shows "\<exists>res. extract_tickers content (Some reference) blocklist overrides = Inr res \<and> tick \<notin> set res"
proof -
  have "\<not> accepted reference blocklist overrides (strong_signal content reference) (tick, f)"
    if "(tick, f) \<in> set (scan None content)" for f
  proof (cases f)
    case Cashtag
    then show ?thesis
      using that assms cashtag_is_strong[of tick content reference]
      by (auto simp: accepted_def)
  next
    case Bare
    then show ?thesis using assms by (simp add: accepted_def)
  qed
  then have "tick \<notin> fst ` {cand \<in> set (scan None content).
                    accepted reference blocklist overrides (strong_signal content reference) cand}"
    by force
  then show ?thesis
    by (simp add: extract_tickers_def)
qed

section \<open>Concrete runs\<close>



text \<open>The double nearest to 0.3: the product rounds to 12, which exact arithmetic misses.\<close>

lemma js_change_rounds: "js_change (5404319552844595 / 18014398509481984) = - 8"
  by code_simp

text \<open>
  Two draws whose product with 40 lies halfway between two doubles: both round to the even
  neighbour (35 + 2 / 2 ^ 47 and 35 + 8 / 2 ^ 47).
\<close>

lemma js_change_ties:
  "js_change (7881299347898372 / 9007199254740992) = 15 + 1 / 2 ^ 46 \<and>
   js_change (7881299347898380 / 9007199254740992) = 15 + 1 / 2 ^ 44"
  by code_simp

lemma GET_sample_zero:
  "GET None now0 (Some sample_table) ties_by_ticker zero_draws = Inr (sample_response (- 20))"
  by code_simp


lemma GET_anomaly: "GET None now0 (Some anomaly_table) ties_by_ticker zero_draws = Inr anomaly_response"
  by code_simp



lemma stocks_in_sample: "(''stocks'', sample_rows c) \<in> set (subredditData (sample_response c))"
  by (simp add: sample_response_def)

lemma stocks_in_anomaly: "(''stocks'', [it_row]) \<in> set (subredditData anomaly_response)"
  by (simp add: anomaly_response_def)

theorem ranks_consecutive_witness:
  "GET None now0 (Some sample_table) ties_by_ticker zero_draws = Inr (sample_response (- 20)) \<and>
   length (sample_rows (- 20)) \<le> 10 \<and>
   map resp_rank (sample_rows (- 20)) = [1..<Suc (length (sample_rows (- 20)))]"
  using ranks_consecutive[OF GET_sample_zero stocks_in_sample] GET_sample_zero by simp

theorem excluded_never_listed_witness:
  "GET None now0 (Some anomaly_table) ties_by_ticker zero_draws = Inr anomaly_response \<and>
   resp_ticker it_row \<notin> set excluded_tickers \<and> 1 < length (resp_ticker it_row)"
  using excluded_never_listed[OF GET_anomaly stocks_in_anomaly, of it_row] GET_anomaly by simp

text \<open>
  Against C5 as stated: IT is a word of the common-word blocklist, the exclusion list of
  the query does not name it, and a stored mention of IT is listed.
\<close>

theorem blocklisted_symbol_listed:
  "GET None now0 (Some anomaly_table) ties_by_ticker zero_draws = Inr anomaly_response \<and>
   (''stocks'', [it_row]) \<in> set (subredditData anomaly_response) \<and>
   resp_ticker it_row = ''IT'' \<and> ''IT'' \<in> set common_word_blocklist"
  using GET_anomaly stocks_in_anomaly by (simp add: it_row_def common_word_blocklist_def)

lemma nine_query:
  "map stat_ticker
       (subreddit_query (ties_in_order unstable_sort_order) ''daily'' now0 ''stocks'' nine_table)
     = [''TSLA'', ''AMD'', ''AMZN'', ''GOOG'', ''META'', ''MSFT'', ''NVDA'', ''AAPL'', ''UBER''] \<and>
   map total_mentions
       (subreddit_query (ties_in_order unstable_sort_order) ''daily'' now0 ''stocks'' nine_table)
     = [2, 1, 1, 1, 1, 1, 1, 1, 1] \<and>
   ''AAPL'' < ''NVDA''"
  by code_simp

text \<open>
  Against C4 as stated: the query orders by the total alone. On the nine tickers an
  ordering of the groups that obeys it lists NVDA before AAPL, each with one mention.
\<close>

theorem ties_not_alphabetical:
  "obeys_query (ties_in_order unstable_sort_order) ''daily'' now0 ''stocks'' nine_table \<and>
   map stat_ticker
       (subreddit_query (ties_in_order unstable_sort_order) ''daily'' now0 ''stocks'' nine_table)
     = [''TSLA'', ''AMD'', ''AMZN'', ''GOOG'', ''META'', ''MSFT'', ''NVDA'', ''AAPL'', ''UBER''] \<and>
   map total_mentions
       (subreddit_query (ties_in_order unstable_sort_order) ''daily'' now0 ''stocks'' nine_table)
     = [2, 1, 1, 1, 1, 1, 1, 1, 1] \<and>
   ''AAPL'' < ''NVDA''"
  using ties_in_order_obeys[of unstable_sort_order "''daily''" now0 "''stocks''" nine_table]
    nine_query
  by (rule conjI)

theorem ranking_descending_witness:
  "obeys_query ties_by_ticker ''daily'' now0 ''stocks'' sample_table \<and>
   sorted_wrt (\<lambda>a b. total_mentions a \<ge> total_mentions b)
     (subreddit_query ties_by_ticker ''daily'' now0 ''stocks'' sample_table) \<and>
   list_all (\<lambda>r. total_mentions r =
                 length (filter (\<lambda>m. ticker m = stat_ticker r)
                           (scope_rows ''daily'' now0 ''stocks'' sample_table)))
     (subreddit_query ties_by_ticker ''daily'' now0 ''stocks'' sample_table)"
  using ties_by_ticker_obeys[of "''daily''" now0 "''stocks''" sample_table]
    ranking_descending[OF ties_by_ticker_obeys, of "''daily''" now0 "''stocks''" sample_table]
  by (rule conjI)

lemma sample_checked: "list_all source_check sample_table"
  by code_simp

lemma nvda_in_query:
  "nvda_ranked \<in> set (subreddit_query ties_by_ticker ''daily'' now0 ''stocks'' sample_table)"
  by code_simp

lemma nvda_in_view: "nvda_hour \<in> set (mentions_hourly_query now0 sample_table)"
  by code_simp

theorem sub_counts_partition_witness:
  "list_all source_check sample_table \<and>
   obeys_query ties_by_ticker ''daily'' now0 ''stocks'' sample_table \<and>
   nvda_ranked \<in> set (subreddit_query ties_by_ticker ''daily'' now0 ''stocks'' sample_table) \<and>
   posts nvda_ranked + comments nvda_ranked = total_mentions nvda_ranked \<and>
   nvda_hour \<in> set (mentions_hourly_query now0 sample_table) \<and>
   mh_posts nvda_hour + mh_comments nvda_hour = hits nvda_hour"
  using sub_counts_partition[OF sample_checked ties_by_ticker_obeys,
      where r = nvda_ranked and timeRange = "''daily''" and now = now0 and sub = "''stocks''"
        and h = nvda_hour and view_now = now0]
    sample_checked nvda_in_query nvda_in_view
    ties_by_ticker_obeys[of "''daily''" now0 "''stocks''" sample_table]
  by simp

text \<open>
  The refresh script asks for \<^verbatim>\<open>CONCURRENTLY\<close>. With the indexes the schema declares on
  the view (none of them unique) that statement is refused and stores nothing; with a
  unique index it is accepted.
\<close>

lemma refresh_script_refused:
  "mentions_hourly_indexes db = mentions_hourly_indexes schema_created \<Longrightarrow>
   refresh_concurrently now db = Inl CannotRefreshConcurrently"
  by (simp add: refresh_concurrently_def schema_created_def)

lemma indexed_refresh:
  "refresh_concurrently now0 indexed_db = Inr (refresh_mentions_hourly now0 indexed_db)"
  by (simp add: refresh_concurrently_def indexed_db_def)

theorem snapshot_is_derived_witness:
  "refresh_concurrently now0 indexed_db = Inr (refresh_mentions_hourly now0 indexed_db) \<and>
   mentions (refresh_mentions_hourly now0 indexed_db) = mentions indexed_db \<and>
   mentions_hourly (refresh_mentions_hourly now0 indexed_db)
     = mentions_hourly_query now0 (mentions indexed_db) \<and>
   distinct (map key_of_row (mentions_hourly (refresh_mentions_hourly now0 indexed_db))) \<and>
   set (mentions_hourly (refresh_mentions_hourly now0 indexed_db))
     = {row_of_bucket k b | k b. replay now0 (mentions indexed_db) k = Some b}"
  using indexed_refresh
  by (rule conjI) (rule snapshot_is_derived, simp)





theorem cashtag_always_accepted_witness:
  "\<exists>res. extract_tickers ''$AI is mooning'' (Some [''AI'']) [''AI''] [] = Inr res \<and> ''AI'' \<in> set res"
  using cashtag_always_accepted[of "''AI''" "'' is mooning''" "[''AI'']" "[]" "[''AI'']" "[]"]
  by (simp add: bounded_after_def is_alnum_def is_upper_def is_lower_def is_digit_def)

lemma no_signal: "\<not> strong_signal ''I think AI will replace us'' [''AI'']"
  by code_simp

theorem blocklisted_bare_excluded_witness:
  "\<not> strong_signal ''I think AI will replace us'' [''AI''] \<and>
   (\<exists>res. extract_tickers ''I think AI will replace us'' (Some [''AI'']) [''AI''] [''AI''] = Inr res
          \<and> ''AI'' \<notin> set res)"
  using blocklisted_bare_excluded[of "''AI''" "[''AI'']" "''I think AI will replace us''" "[''AI'']" "[''AI'']"]
    no_signal
  by simp

end
